theory Spec2Isabelle
  imports Main
begin

section \<open>Bracket matching of the code editor (pyzo/codeeditor/extensions/appearance.py)\<close>

subsection \<open>Python values and exceptions\<close>

text \<open>
  The exceptions that the modelled code can raise. \<open>StopIteration\<close> is not among them:
  it ends a \<open>for\<close> loop and is modelled by \<open>None\<close> of the iterators' \<open>next\<close>.
  \<open>ParenNotFound\<close> is the class \<open>_ParenNotFound\<close>.
\<close>

datatype error = ValueError | IndexError | KeyError | ParenNotFound

text \<open>
  Python's subscription \<open>xs[i]\<close> on a string or list: an index from \<open>-len(xs)\<close> up to
  \<open>-1\<close> counts from the end, and an index outside \<open>-len(xs) .. len(xs)-1\<close> raises
  IndexError (the value \<open>None\<close>).
\<close>

definition py_get :: "'a list \<Rightarrow> int \<Rightarrow> 'a option" where
  "py_get xs i =
     (if 0 \<le> i \<and> i < int (length xs) then Some (xs ! nat i)
      else if - int (length xs) \<le> i \<and> i < 0 then Some (xs ! nat (int (length xs) + i))
      else None)"

subsection \<open>The class constants of HighlightMatchingBracket\<close>

definition BRACKS_OPEN :: string where
  "BRACKS_OPEN = ''([{''"

definition BRACKS_CLOSE :: string where
  "BRACKS_CLOSE = '')]}''"

definition BRACKS :: string where
  "BRACKS = BRACKS_OPEN @ BRACKS_CLOSE"

text \<open>\<open>_matchingBrackets = dict(zip(_BRACKS_OPEN + _BRACKS_CLOSE, _BRACKS_CLOSE + _BRACKS_OPEN))\<close>\<close>

definition matchingBrackets :: "char \<rightharpoonup> char" where
  "matchingBrackets = map_of (zip (BRACKS_OPEN @ BRACKS_CLOSE) (BRACKS_CLOSE @ BRACKS_OPEN))"

subsection \<open>The document as the code reads it\<close>

text \<open>
  Modelled from the spec: the class \<open>ParenthesisToken\<close> of \<open>parsers/tokens\<close> is not among
  the sources. The code reads three things of a token: whether it is an instance of
  \<open>ParenthesisToken\<close>, its \<open>_style\<close> (which \<open>_ParenIterator.__next__\<close> yields as the
  bracket character; the spec's token carries one bracket glyph), and its \<open>end\<close> (the end
  offset within the line).
\<close>

record token =
  isParenthesisToken :: bool
  style :: char
  tok_end :: int

text \<open>
  A text block (a line) of the document: its text, and the user data that the highlighter
  attaches (\<open>None\<close> when \<open>userData()\<close> is \<open>None\<close>, which makes the code's attribute access
  raise AttributeError). The document is the list of its blocks; a block is referred to by
  its index, and an index outside the list is an invalid block.
\<close>

record block =
  blk_text :: string
  userData :: "token list option"

type_synonym document = "block list"

definition isValid :: "document \<Rightarrow> int \<Rightarrow> bool" where
  "isValid doc b = (0 \<le> b \<and> b < int (length doc))"

text \<open>
  \<open>block.position()\<close>: the document position of the block's first character. Every
  block before it takes its text and one separator.
\<close>

definition block_position :: "document \<Rightarrow> int \<Rightarrow> int" where
  "block_position doc b = sum_list (map (\<lambda>x. int (length (blk_text x)) + 1) (take (nat b) doc))"

text \<open>\<open>document.toPlainText()\<close>: the blocks' texts, separated by newlines.\<close>

fun toPlainText :: "document \<Rightarrow> string" where
  "toPlainText [] = []"
| "toPlainText [b] = blk_text b"
| "toPlainText (b # bs) = blk_text b @ CHR 0x0A # toPlainText bs"

text \<open>
  A cursor is its document position. \<open>cursor.block()\<close> is the block that holds the
  position (an invalid block, index \<open>-1\<close>, when there is none), and
  \<open>cursor.positionInBlock()\<close> the offset from that block's start.
\<close>

type_synonym cursor = int

definition cursor_block :: "document \<Rightarrow> cursor \<Rightarrow> int" where
  "cursor_block doc c =
     (case find (\<lambda>b. block_position doc (int b) \<le> c
                    \<and> c \<le> block_position doc (int b) + int (length (blk_text (doc ! b))))
                [0 ..< length doc] of
        None \<Rightarrow> - 1
      | Some b \<Rightarrow> int b)"

definition positionInBlock :: "document \<Rightarrow> cursor \<Rightarrow> int" where
  "positionInBlock doc c = c - block_position doc (cursor_block doc c)"

subsection \<open>Scan directions\<close>

text \<open>
  The code passes the direction as the integer \<open>1\<close> or \<open>-1\<close>; \<open>_findMatchingBracket\<close>
  is the only caller and passes no other value.
\<close>

datatype direction = Forward | Backward

fun dir_int :: "direction \<Rightarrow> int" where
  "dir_int Forward = 1"
| "dir_int Backward = - 1"

subsection \<open>\<open>_PlainTextParenIterator\<close>\<close>

record PlainTextParenIterator =
  pt_fulltext :: string
  pt_position :: int
  pt_direction :: direction

definition PlainTextParenIterator_init :: "document \<Rightarrow> cursor \<Rightarrow> direction \<Rightarrow> PlainTextParenIterator" where
  "PlainTextParenIterator_init doc c d =
     \<lparr>pt_fulltext = toPlainText doc, pt_position = c - 1, pt_direction = d\<rparr>"

text \<open>
  The \<open>while\<close> loop of \<open>__next__\<close>, from the position \<open>p\<close>. \<open>None\<close> is StopIteration,
  raised by the test \<open>self.position < 0\<close> or in place of the IndexError of the
  subscription. The loop ends at a position whose character is a bracket; the result is
  that character (which the \<open>return\<close> statement reads again) and the position.
\<close>

function pt_while :: "string \<Rightarrow> direction \<Rightarrow> int \<Rightarrow> (char \<times> int) option" where
  "pt_while fulltext d p =
     (case py_get fulltext p of
        None \<Rightarrow> None
      | Some ch \<Rightarrow>
          if ch \<notin> set ''([{)]}'' then
            (let p' = p + dir_int d in if p' < 0 then None else pt_while fulltext d p')
          else Some (ch, p))"
  by pat_completeness auto
termination
proof (relation "measure (\<lambda>(fulltext, d, p).
         case d of Forward \<Rightarrow> nat (int (length fulltext) - p)
                 | Backward \<Rightarrow> nat (p + int (length fulltext) + 1))")
  show "wf (measure (\<lambda>(fulltext, d, p).
         case d of Forward \<Rightarrow> nat (int (length fulltext) - p)
                 | Backward \<Rightarrow> nat (p + int (length fulltext) + 1)))"
    by simp
next
  fix fulltext :: string and d :: direction and p :: int and ch :: char and p' :: int
  assume g: "py_get fulltext p = Some ch" and p': "p' = p + dir_int d" and nn: "\<not> p' < 0"
  from g have "- int (length fulltext) \<le> p \<and> p < int (length fulltext)"
    by (auto simp: py_get_def split: if_splits)
  with p' nn show "((fulltext, d, p'), (fulltext, d, p)) \<in> measure (\<lambda>(fulltext, d, p).
         case d of Forward \<Rightarrow> nat (int (length fulltext) - p)
                 | Backward \<Rightarrow> nat (p + int (length fulltext) + 1))"
    by (cases d) auto
qed

declare pt_while.simps [simp del]

text \<open>\<open>__next__\<close>: the yielded pair and the iterator afterwards, or \<open>None\<close> for StopIteration.\<close>

definition PlainTextParenIterator_next ::
  "PlainTextParenIterator \<Rightarrow> ((char \<times> int) \<times> PlainTextParenIterator) option" where
  "PlainTextParenIterator_next it =
     (case pt_while (pt_fulltext it) (pt_direction it) (pt_position it + dir_int (pt_direction it)) of
        None \<Rightarrow> None
      | Some (ch, p) \<Rightarrow> Some ((ch, p + 1), it\<lparr>pt_position := p\<rparr>))"

lemma pt_while_Some:
  "pt_while fulltext d p = Some (ch, q) \<Longrightarrow>
     py_get fulltext q = Some ch \<and> ch \<in> set ''([{)]}'' \<and>
     (case d of Forward \<Rightarrow> p \<le> q | Backward \<Rightarrow> q \<le> p)"
proof (induction fulltext d p rule: pt_while.induct)
  case (1 fulltext d p)
  from "1.prems" obtain c where c: "py_get fulltext p = Some c"
    by (subst (asm) pt_while.simps) (auto split: option.splits)
  show ?case
  proof (cases "c \<in> set ''([{)]}''")
    case True
    then have nb: "(c \<notin> set ''([{)]}'') = False"
      by blast
    from "1.prems" have "Some (c, p) = Some (ch, q)"
      by (subst (asm) pt_while.simps) (simp only: c nb option.case if_False)
    with c True show ?thesis
      by (cases d) auto
  next
    case False
    then have nb: "(c \<notin> set ''([{)]}'') = True"
      by blast
    from "1.prems" have *: "(let p' = p + dir_int d in if p' < 0 then None else pt_while fulltext d p') = Some (ch, q)"
      by (subst (asm) pt_while.simps) (simp only: c nb option.case if_True)
    then have nn: "\<not> p + dir_int d < 0"
      and rec: "pt_while fulltext d (p + dir_int d) = Some (ch, q)"
      by (simp_all add: Let_def split: if_splits)
    from "1.IH" [OF c False refl nn rec] show ?thesis
      by (cases d) auto
  qed
qed

text \<open>
  The pairs that a \<open>for\<close> loop over the iterator receives, up to StopIteration. The
  iterator is lazy: a loop that returns early draws only a prefix of this list.
\<close>

function pt_events :: "PlainTextParenIterator \<Rightarrow> (char \<times> int) list" where
  "pt_events it =
     (case PlainTextParenIterator_next it of
        None \<Rightarrow> []
      | Some (ev, it') \<Rightarrow> ev # pt_events it')"
  by pat_completeness auto
termination
proof (relation "measure (\<lambda>it.
         case pt_direction it of
           Forward \<Rightarrow> nat (int (length (pt_fulltext it)) - pt_position it)
         | Backward \<Rightarrow> nat (pt_position it + int (length (pt_fulltext it)) + 1))")
  show "wf (measure (\<lambda>it.
         case pt_direction it of
           Forward \<Rightarrow> nat (int (length (pt_fulltext it)) - pt_position it)
         | Backward \<Rightarrow> nat (pt_position it + int (length (pt_fulltext it)) + 1)))"
    by simp
next
  fix it :: PlainTextParenIterator and x2 :: "(char \<times> int) \<times> PlainTextParenIterator"
    and ev :: "char \<times> int" and it' :: PlainTextParenIterator
  assume n: "PlainTextParenIterator_next it = Some x2" and x2: "(ev, it') = x2"
  from n x2 obtain ch q where
    w: "pt_while (pt_fulltext it) (pt_direction it) (pt_position it + dir_int (pt_direction it)) = Some (ch, q)"
    and it': "it' = it\<lparr>pt_position := q\<rparr>"
    by (auto simp: PlainTextParenIterator_next_def split: option.splits)
  from pt_while_Some [OF w] have g: "py_get (pt_fulltext it) q = Some ch"
    and o: "case pt_direction it of Forward \<Rightarrow> pt_position it + dir_int (pt_direction it) \<le> q
              | Backward \<Rightarrow> q \<le> pt_position it + dir_int (pt_direction it)"
    by simp_all
  from g have r: "- int (length (pt_fulltext it)) \<le> q \<and> q < int (length (pt_fulltext it))"
    by (auto simp: py_get_def split: if_splits)
  from o r it' show "(it', it) \<in> measure (\<lambda>it.
         case pt_direction it of
           Forward \<Rightarrow> nat (int (length (pt_fulltext it)) - pt_position it)
         | Backward \<Rightarrow> nat (pt_position it + int (length (pt_fulltext it)) + 1))"
    by (cases "pt_direction it") auto
qed

declare pt_events.simps [simp del]

subsection \<open>\<open>_ParenIterator\<close>\<close>

text \<open>
  \<open>_getParenTokens\<close> of a block: the tokens that are instances of \<open>ParenthesisToken\<close>,
  and the empty list when the block has no user data (the AttributeError is caught), as
  an invalid block has none.
\<close>

definition getParenTokens :: "document \<Rightarrow> int \<Rightarrow> token list" where
  "getParenTokens doc b =
     (if isValid doc b then
        (case userData (doc ! nat b) of
           None \<Rightarrow> []
         | Some tokens \<Rightarrow> filter isParenthesisToken tokens)
      else [])"

text \<open>\<open>block.next()\<close> and \<open>block.previous()\<close>; those of an invalid block are invalid.\<close>

definition block_next :: "document \<Rightarrow> int \<Rightarrow> int" where
  "block_next doc b = (if isValid doc b then b + 1 else - 1)"

definition block_previous :: "document \<Rightarrow> int \<Rightarrow> int" where
  "block_previous doc b = (if isValid doc b then b - 1 else - 1)"

record ParenIterator =
  tk_cur_block :: int
  tk_cur_tokens :: "token list"
  tk_cur_pos :: int
  tk_direction :: direction

text \<open>
  The \<open>while\<close> loop of \<open>__init__\<close>, from the index \<open>k\<close>: the first index at or after \<open>k\<close>
  of a token that ends at the cursor's position in the block; \<open>None\<close> is the IndexError
  of \<open>self.cur_tokens[k]\<close>.
\<close>

function init_while :: "token list \<Rightarrow> int \<Rightarrow> int \<Rightarrow> int option" where
  "init_while cur_tokens pib k =
     (case py_get cur_tokens k of
        None \<Rightarrow> None
      | Some t \<Rightarrow> if tok_end t \<noteq> pib then init_while cur_tokens pib (k + 1) else Some k)"
  by pat_completeness auto
termination
proof (relation "measure (\<lambda>(cur_tokens, pib, k). nat (int (length cur_tokens) - k))")
  show "wf (measure (\<lambda>(cur_tokens, pib, k). nat (int (length cur_tokens) - k)))"
    by simp
next
  fix cur_tokens :: "token list" and pib k :: int and t :: token
  assume "py_get cur_tokens k = Some t"
  then have "k < int (length cur_tokens)"
    by (auto simp: py_get_def split: if_splits)
  then show "((cur_tokens, pib, k + 1), (cur_tokens, pib, k))
      \<in> measure (\<lambda>(cur_tokens, pib, k). nat (int (length cur_tokens) - k))"
    by simp
qed

declare init_while.simps [simp del]

definition ParenIterator_init :: "document \<Rightarrow> cursor \<Rightarrow> direction \<Rightarrow> error + ParenIterator" where
  "ParenIterator_init doc c d =
     (let cur_block = cursor_block doc c;
          cur_tokens = getParenTokens doc cur_block
      in case init_while cur_tokens (positionInBlock doc c) 0 of
           None \<Rightarrow> Inl ParenNotFound
         | Some k \<Rightarrow> Inr \<lparr>tk_cur_block = cur_block, tk_cur_tokens = cur_tokens,
                          tk_cur_pos = k, tk_direction = d\<rparr>)"

text \<open>
  The \<open>while\<close> loop of \<open>__next__\<close>, on the fields \<open>cur_block\<close>, \<open>cur_tokens\<close> and
  \<open>cur_pos\<close>; \<open>None\<close> is StopIteration.
\<close>

function tk_while ::
  "document \<Rightarrow> direction \<Rightarrow> int \<Rightarrow> token list \<Rightarrow> int \<Rightarrow> (int \<times> token list \<times> int) option" where
  "tk_while doc d cur_block cur_tokens cur_pos =
     (if cur_pos \<ge> int (length cur_tokens) \<or> cur_pos < 0 then
        (let cur_block' = (if dir_int d = 1 then block_next doc cur_block
                           else block_previous doc cur_block)
         in if \<not> isValid doc cur_block' then None
            else
              (let cur_tokens' = getParenTokens doc cur_block';
                   cur_pos' = (if dir_int d = 1 then 0 else int (length cur_tokens') - 1)
               in tk_while doc d cur_block' cur_tokens' cur_pos'))
      else Some (cur_block, cur_tokens, cur_pos))"
  by pat_completeness auto
termination
proof (relation "measure (\<lambda>(doc, d, cur_block, cur_tokens, cur_pos).
         case d of Forward \<Rightarrow> nat (int (length doc) - cur_block)
                 | Backward \<Rightarrow> nat (cur_block + 1))")
  show "wf (measure (\<lambda>(doc, d, cur_block, cur_tokens, cur_pos).
         case d of Forward \<Rightarrow> nat (int (length doc) - cur_block)
                 | Backward \<Rightarrow> nat (cur_block + 1)))"
    by simp
next
  fix doc :: document and d :: direction and cur_block cur_pos cur_block' cur_pos' :: int
    and cur_tokens cur_tokens' :: "token list"
  assume b': "cur_block' = (if dir_int d = 1 then block_next doc cur_block
                            else block_previous doc cur_block)"
    and v: "\<not> \<not> isValid doc cur_block'"
  from b' v have "isValid doc cur_block"
    by (auto simp: block_next_def block_previous_def isValid_def split: if_splits)
  with b' v show "((doc, d, cur_block', cur_tokens', cur_pos'), (doc, d, cur_block, cur_tokens, cur_pos))
      \<in> measure (\<lambda>(doc, d, cur_block, cur_tokens, cur_pos).
         case d of Forward \<Rightarrow> nat (int (length doc) - cur_block)
                 | Backward \<Rightarrow> nat (cur_block + 1))"
    by (cases d) (auto simp: block_next_def block_previous_def isValid_def)
qed

declare tk_while.simps [simp del]

text \<open>
  \<open>__next__\<close>. The loop leaves \<open>cur_pos\<close> inside \<open>cur_tokens\<close> (lemma \<open>tk_while_Some\<close>),
  so the subscriptions of the \<open>return\<close> statement are in range.
\<close>

definition ParenIterator_next ::
  "document \<Rightarrow> ParenIterator \<Rightarrow> ((char \<times> int) \<times> ParenIterator) option" where
  "ParenIterator_next doc it =
     (case tk_while doc (tk_direction it) (tk_cur_block it) (tk_cur_tokens it)
             (tk_cur_pos it + dir_int (tk_direction it)) of
        None \<Rightarrow> None
      | Some (cur_block, cur_tokens, cur_pos) \<Rightarrow>
          Some ((style (cur_tokens ! nat cur_pos),
                 block_position doc cur_block + tok_end (cur_tokens ! nat cur_pos)),
                it\<lparr>tk_cur_block := cur_block, tk_cur_tokens := cur_tokens, tk_cur_pos := cur_pos\<rparr>))"

lemma tk_while_Some:
  "tk_while doc d b toks p = Some (b', toks', p') \<Longrightarrow>
     0 \<le> p' \<and> p' < int (length toks') \<and>
     ((b' = b \<and> toks' = toks \<and> p' = p) \<or>
      (isValid doc b \<and> isValid doc b' \<and> toks' = getParenTokens doc b' \<and>
       (case d of Forward \<Rightarrow> b < b' | Backward \<Rightarrow> b' < b)))"
proof (induction doc d b toks p rule: tk_while.induct)
  case (1 doc d cur_block cur_tokens cur_pos)
  show ?case
  proof (cases "cur_pos \<ge> int (length cur_tokens) \<or> cur_pos < 0")
    case False
    with "1.prems" show ?thesis
      by (subst (asm) tk_while.simps) auto
  next
    case True
    define nb where "nb = (if dir_int d = 1 then block_next doc cur_block
                           else block_previous doc cur_block)"
    define nt where "nt = getParenTokens doc nb"
    define np where "np = (if dir_int d = 1 then 0 else int (length nt) - 1)"
    from "1.prems" True have v: "\<not> \<not> isValid doc nb"
      and rec: "tk_while doc d nb nt np = Some (b', toks', p')"
      by (subst (asm) tk_while.simps; simp add: Let_def nb_def nt_def np_def split: if_splits)+
    from v have vb: "isValid doc cur_block"
      and step: "case d of Forward \<Rightarrow> nb = cur_block + 1 | Backward \<Rightarrow> nb = cur_block - 1"
      by (cases d; auto simp: nb_def block_next_def block_previous_def isValid_def split: if_splits)+
    from "1.IH" [OF True nb_def v nt_def np_def rec]
    have "0 \<le> p' \<and> p' < int (length toks') \<and>
       ((b' = nb \<and> toks' = nt \<and> p' = np) \<or>
        (isValid doc nb \<and> isValid doc b' \<and> toks' = getParenTokens doc b' \<and>
         (case d of Forward \<Rightarrow> nb < b' | Backward \<Rightarrow> b' < nb)))" .
    with v vb step show ?thesis
      by (cases d) (auto simp: nt_def)
  qed
qed

function tk_events :: "document \<Rightarrow> ParenIterator \<Rightarrow> (char \<times> int) list" where
  "tk_events doc it =
     (case ParenIterator_next doc it of
        None \<Rightarrow> []
      | Some (ev, it') \<Rightarrow> ev # tk_events doc it')"
  by pat_completeness auto
termination
proof (relation "measures
         [\<lambda>(doc, it). case tk_direction it of
                        Forward \<Rightarrow> nat (int (length doc) - tk_cur_block it)
                      | Backward \<Rightarrow> nat (tk_cur_block it + 1),
          \<lambda>(doc, it). case tk_direction it of
                        Forward \<Rightarrow> nat (int (length (tk_cur_tokens it)) - tk_cur_pos it)
                      | Backward \<Rightarrow> nat (tk_cur_pos it + 1)]")
  show "wf (measures
         [\<lambda>(doc, it). case tk_direction it of
                        Forward \<Rightarrow> nat (int (length doc) - tk_cur_block it)
                      | Backward \<Rightarrow> nat (tk_cur_block it + 1),
          \<lambda>(doc, it). case tk_direction it of
                        Forward \<Rightarrow> nat (int (length (tk_cur_tokens it)) - tk_cur_pos it)
                      | Backward \<Rightarrow> nat (tk_cur_pos it + 1)])"
    by simp
next
  fix doc :: document and it it' :: ParenIterator and x2 :: "(char \<times> int) \<times> ParenIterator"
    and ev :: "char \<times> int"
  assume n: "ParenIterator_next doc it = Some x2" and x2: "(ev, it') = x2"
  from n x2 obtain b' toks' p' where
    w: "tk_while doc (tk_direction it) (tk_cur_block it) (tk_cur_tokens it)
          (tk_cur_pos it + dir_int (tk_direction it)) = Some (b', toks', p')"
    and it': "it' = it\<lparr>tk_cur_block := b', tk_cur_tokens := toks', tk_cur_pos := p'\<rparr>"
    by (auto simp: ParenIterator_next_def split: option.splits)
  from tk_while_Some [OF w] it'
  show "((doc, it'), (doc, it)) \<in> measures
         [\<lambda>(doc, it). case tk_direction it of
                        Forward \<Rightarrow> nat (int (length doc) - tk_cur_block it)
                      | Backward \<Rightarrow> nat (tk_cur_block it + 1),
          \<lambda>(doc, it). case tk_direction it of
                        Forward \<Rightarrow> nat (int (length (tk_cur_tokens it)) - tk_cur_pos it)
                      | Backward \<Rightarrow> nat (tk_cur_pos it + 1)]"
    by (cases "tk_direction it") (auto simp: isValid_def)
qed

declare tk_events.simps [simp del]

subsection \<open>\<open>_findMatchingBracket\<close>\<close>

text \<open>
  \<open>_MatchResult\<close> with its \<open>_MatchStatus\<close>. The code builds it in three shapes only:
  \<open>NoMatch\<close> with no position, \<open>Match\<close> with \<open>corresponding\<close>, and \<open>MisMatch\<close> with
  \<open>corresponding\<close> and \<open>offending\<close>, in this order.
\<close>

datatype MatchResult = NoMatch | Match int | MisMatch int int

text \<open>
  The editor, as far as the matching reads it: the name of the parser (\<open>None\<close> when
  \<open>parser()\<close> is \<open>None\<close>), the document, and the option of
  \<open>setHighlightMisMatchingBracket\<close>.
\<close>

record editor =
  parser :: "string option"
  document :: document
  highlightMisMatchingBracket :: bool

text \<open>
  The first statement: the direction, the stacking and the unstacking characters.
  \<open>char\<close> is one character (\<open>paintEvent\<close> passes \<open>text[pos]\<close>), for which Python's
  \<open>in\<close> on a string is membership.
\<close>

definition select_direction :: "char \<Rightarrow> error + (direction \<times> string \<times> string)" where
  "select_direction char =
     (if char \<in> set BRACKS_CLOSE then Inr (Backward, BRACKS_CLOSE, BRACKS_OPEN)
      else if char \<in> set BRACKS_OPEN then Inr (Forward, BRACKS_OPEN, BRACKS_CLOSE)
      else Inl ValueError)"

text \<open>The test \<open>self.parser() is not None and self.parser().name() != ""\<close>.\<close>

definition has_parser :: "editor \<Rightarrow> bool" where
  "has_parser ed = (case parser ed of None \<Rightarrow> False | Some name \<Rightarrow> name \<noteq> [])"

text \<open>
  The choice of the iterator class and its construction over the cursor; the result is
  the sequence of pairs that the \<open>for\<close> loop draws from it.
\<close>

definition our_iterator :: "editor \<Rightarrow> cursor \<Rightarrow> direction \<Rightarrow> error + (char \<times> int) list" where
  "our_iterator ed cursor d =
     (if has_parser ed then
        (case ParenIterator_init (document ed) cursor d of
           Inl e \<Rightarrow> Inl e
         | Inr it \<Rightarrow> Inr (tk_events (document ed) it))
      else Inr (pt_events (PlainTextParenIterator_init (document ed) cursor d)))"

text \<open>
  One pass through the body of the \<open>for\<close> loop with the stack \<open>stacked_paren\<close> (a Python
  list, its top at the end): the loop returns a result, or goes on with a new stack.
  \<open>stacked_paren[-1]\<close> raises IndexError on the empty list, and the dictionary
  \<open>_matchingBrackets\<close> raises KeyError on a character that is no bracket.
\<close>

datatype loop_outcome = Return MatchResult | Continue "(char \<times> int) list"

definition end_of_body :: "(char \<times> int) list \<Rightarrow> int \<Rightarrow> error + loop_outcome" where
  "end_of_body stacked_paren pos =
     (if length stacked_paren = 0 then Inr (Return (Match pos))
      else Inr (Continue stacked_paren))"

definition loop_body ::
  "string \<Rightarrow> string \<Rightarrow> (char \<times> int) list \<Rightarrow> char \<times> int \<Rightarrow> error + loop_outcome" where
  "loop_body stacking unstacking stacked_paren ev =
     (case ev of (paren, pos) \<Rightarrow>
        if paren \<in> set stacking then end_of_body (stacked_paren @ [(paren, pos)]) pos
        else if paren \<in> set unstacking then
          (if stacked_paren = [] then Inl IndexError
           else
             (case matchingBrackets (fst (last stacked_paren)) of
                None \<Rightarrow> Inl KeyError
              | Some partner \<Rightarrow>
                  if partner \<noteq> paren then Inr (Return (MisMatch pos (snd (last stacked_paren))))
                  else end_of_body (butlast stacked_paren) pos))
        else end_of_body stacked_paren pos)"

fun for_loop ::
  "string \<Rightarrow> string \<Rightarrow> (char \<times> int) list \<Rightarrow> (char \<times> int) list \<Rightarrow> error + MatchResult" where
  "for_loop stacking unstacking stacked_paren [] = Inr NoMatch"
| "for_loop stacking unstacking stacked_paren (ev # evs) =
     (case loop_body stacking unstacking stacked_paren ev of
        Inl e \<Rightarrow> Inl e
      | Inr (Return r) \<Rightarrow> Inr r
      | Inr (Continue stacked_paren') \<Rightarrow> for_loop stacking unstacking stacked_paren' evs)"

definition findMatchingBracket :: "editor \<Rightarrow> char \<Rightarrow> cursor \<Rightarrow> error + MatchResult" where
  "findMatchingBracket ed char cursor =
     (case select_direction char of
        Inl e \<Rightarrow> Inl e
      | Inr (direction, stacking, unstacking) \<Rightarrow>
          (case our_iterator ed cursor direction of
             Inl e \<Rightarrow> Inl e
           | Inr evs \<Rightarrow> for_loop stacking unstacking [(char, cursor)] evs))"

subsection \<open>The highlighting of \<open>paintEvent\<close>\<close>

text \<open>
  The style elements that \<open>_highlightSingleChar\<close> is called with:
  \<open>editor.highlightUnmatchedBracket\<close>, \<open>editor.highlightMatchingBracket\<close> and
  \<open>editor.highlightMisMatchingBracket\<close>.
\<close>

datatype HighlightClass = Unmatched | MatchedPair | MismatchedPair

text \<open>
  The calls of \<open>_highlightSingleChar\<close> for a match result, in the order of the code:
  each is the position of the cursor that it is given and the style element.
\<close>

definition highlight_calls :: "editor \<Rightarrow> cursor \<Rightarrow> MatchResult \<Rightarrow> (int \<times> HighlightClass) list" where
  "highlight_calls ed cursor match_res =
     (case match_res of
        NoMatch \<Rightarrow> [(cursor, Unmatched)]
      | Match corresponding \<Rightarrow> [(cursor, MatchedPair), (corresponding, MatchedPair)]
      | MisMatch corresponding offending \<Rightarrow>
          (if cursor \<noteq> offending \<or> \<not> highlightMisMatchingBracket ed
           then [(cursor, Unmatched)] else [])
          @ (if highlightMisMatchingBracket ed
             then [(corresponding, MismatchedPair), (offending, MismatchedPair)] else []))"

text \<open>
  The branch \<open>if char in self._BRACKS\<close> of \<open>paintEvent\<close>: the \<open>try\<close> statement around
  the query and the painting. \<open>_ParenNotFound\<close> is caught and nothing is painted; any
  other exception leaves \<open>paintEvent\<close>.
\<close>

definition paint_bracket :: "editor \<Rightarrow> char \<Rightarrow> cursor \<Rightarrow> error + (int \<times> HighlightClass) list" where
  "paint_bracket ed char cursor =
     (case findMatchingBracket ed char cursor of
        Inl ParenNotFound \<Rightarrow> Inr []
      | Inl e \<Rightarrow> Inl e
      | Inr match_res \<Rightarrow> Inr (highlight_calls ed cursor match_res))"

subsection \<open>The state of the loop after some iterations\<close>

text \<open>
  The outcome of the loop body over a prefix of the iterator's pairs: \<open>Continue\<close> with
  the stack at the start of the next iteration while the loop has not returned, and
  the first \<open>Return\<close> or exception otherwise.
\<close>

fun run_prefix ::
  "string \<Rightarrow> string \<Rightarrow> (char \<times> int) list \<Rightarrow> (char \<times> int) list \<Rightarrow> error + loop_outcome" where
  "run_prefix stacking unstacking stacked_paren [] = Inr (Continue stacked_paren)"
| "run_prefix stacking unstacking stacked_paren (ev # evs) =
     (case loop_body stacking unstacking stacked_paren ev of
        Inr (Continue stacked_paren') \<Rightarrow> run_prefix stacking unstacking stacked_paren' evs
      | r \<Rightarrow> r)"

text \<open>The invariant of the loop: the stack is not empty and holds stacking characters.\<close>

definition stack_inv :: "string \<Rightarrow> (char \<times> int) list \<Rightarrow> bool" where
  "stack_inv stacking st = (st \<noteq> [] \<and> (\<forall>x \<in> set st. fst x \<in> set stacking))"

subsection \<open>Balanced texts\<close>

text \<open>
  The three bracket families, and the texts with no unmatched bracket: the empty text,
  a character that is no bracket before a balanced text, and an opening bracket, a
  balanced text, the closing bracket of the same family and a balanced text.
\<close>

definition bracket_pairs :: "(char \<times> char) list" where
  "bracket_pairs = [(CHR ''('', CHR '')''), (CHR ''['', CHR '']''), (CHR ''{'', CHR ''}'')]"

inductive balanced :: "string \<Rightarrow> bool" where
  empty: "balanced []"
| other: "c \<notin> set ''([{)]}'' \<Longrightarrow> balanced s \<Longrightarrow> balanced (c # s)"
| pair: "(ob, cb) \<in> set bracket_pairs \<Longrightarrow> balanced s \<Longrightarrow> balanced t \<Longrightarrow>
           balanced (ob # s @ cb # t)"

text \<open>
  The brackets of a text with their cursor positions (the position after the character),
  where the text starts at the document position \<open>off\<close>: what a scan of the plain text
  is expected to meet, from left to right.
\<close>

fun text_events :: "int \<Rightarrow> string \<Rightarrow> (char \<times> int) list" where
  "text_events off [] = []"
| "text_events off (c # s) =
     (if c \<in> set ''([{)]}'' then [(c, off + 1)] else []) @ text_events (off + 1) s"

subsection \<open>Token data that agree with the text\<close>



section \<open>Properties of the matching loop\<close>

lemma for_loop_append:
  "for_loop s u st (pre @ rest) =
     (case run_prefix s u st pre of
        Inl e \<Rightarrow> Inl e
      | Inr (Return r) \<Rightarrow> Inr r
      | Inr (Continue st') \<Rightarrow> for_loop s u st' rest)"
  by (induction pre arbitrary: st) (auto split: sum.splits loop_outcome.splits)

lemma matchingBrackets_simps:
  "matchingBrackets CHR ''('' = Some CHR '')''"
  "matchingBrackets CHR ''['' = Some CHR '']''"
  "matchingBrackets CHR ''{'' = Some CHR ''}''"
  "matchingBrackets CHR '')'' = Some CHR ''(''"
  "matchingBrackets CHR '']'' = Some CHR ''[''"
  "matchingBrackets CHR ''}'' = Some CHR ''{''"
  by (simp_all add: matchingBrackets_def BRACKS_OPEN_def BRACKS_CLOSE_def)

lemma matchingBrackets_Some:
  "c \<in> set BRACKS_OPEN \<or> c \<in> set BRACKS_CLOSE \<Longrightarrow> \<exists>m. matchingBrackets c = Some m"
  by (auto simp: BRACKS_OPEN_def BRACKS_CLOSE_def matchingBrackets_simps)

lemma select_direction_Inr:
  "select_direction char = Inr (d, stacking, unstacking) \<Longrightarrow>
     (d = Backward \<and> stacking = BRACKS_CLOSE \<and> unstacking = BRACKS_OPEN \<and> char \<in> set BRACKS_CLOSE) \<or>
     (d = Forward \<and> stacking = BRACKS_OPEN \<and> unstacking = BRACKS_CLOSE \<and> char \<in> set BRACKS_OPEN)"
  by (auto simp: select_direction_def split: if_splits)

lemma end_of_body_Continue:
  "end_of_body st pos = Inr (Continue st') \<longleftrightarrow> st \<noteq> [] \<and> st' = st"
  by (auto simp: end_of_body_def)

lemma end_of_body_Return:
  "end_of_body st pos = Inr (Return r) \<longleftrightarrow> st = [] \<and> r = Match pos"
  by (auto simp: end_of_body_def)

lemma end_of_body_not_Inl [simp]:
  "end_of_body st pos \<noteq> Inl e"
  by (simp add: end_of_body_def)

lemma loop_body_inv:
  assumes "stack_inv stacking st" and "loop_body stacking unstacking st ev = Inr (Continue st')"
  shows "stack_inv stacking st'"
proof -
  obtain paren pos where ev: "ev = (paren, pos)" by (cases ev)
  have bl: "\<forall>x \<in> set (butlast st). fst x \<in> set stacking"
    using assms(1) by (auto simp: stack_inv_def dest: in_set_butlastD)
  from assms ev consider
    (push) "paren \<in> set stacking" "st' = st @ [(paren, pos)]"
    | (pop) "butlast st \<noteq> []" "st' = butlast st"
    | (skip) "st' = st"
    by (auto simp: loop_body_def end_of_body_Continue split: if_splits option.splits)
  then show ?thesis
  proof cases
    case push
    with assms(1) show ?thesis by (auto simp: stack_inv_def)
  next
    case pop
    with bl show ?thesis by (simp add: stack_inv_def)
  next
    case skip
    with assms(1) show ?thesis by simp
  qed
qed

lemma run_prefix_inv:
  "stack_inv stacking st \<Longrightarrow> run_prefix stacking unstacking st pre = Inr (Continue st') \<Longrightarrow>
     stack_inv stacking st'"
proof (induction pre arbitrary: st)
  case Nil
  then show ?case by simp
next
  case (Cons ev pre)
  from Cons.prems(2) obtain st2 where
    b: "loop_body stacking unstacking st ev = Inr (Continue st2)"
    and r: "run_prefix stacking unstacking st2 pre = Inr (Continue st')"
    by (auto split: sum.splits loop_outcome.splits)
  from Cons.IH [OF loop_body_inv [OF Cons.prems(1) b] r] show ?case .
qed

lemma loop_body_no_error:
  assumes "stack_inv stacking st" and "stacking = BRACKS_OPEN \<or> stacking = BRACKS_CLOSE"
  shows "loop_body stacking unstacking st ev \<noteq> Inl e"
proof -
  obtain paren pos where ev: "ev = (paren, pos)" by (cases ev)
  from assms have "fst (last st) \<in> set BRACKS_OPEN \<or> fst (last st) \<in> set BRACKS_CLOSE"
    by (auto simp: stack_inv_def)
  from matchingBrackets_Some [OF this] obtain m where "matchingBrackets (fst (last st)) = Some m" ..
  with assms(1) ev show ?thesis
    by (auto simp: stack_inv_def loop_body_def)
qed

lemma for_loop_no_error:
  assumes "stacking = BRACKS_OPEN \<or> stacking = BRACKS_CLOSE"
  shows "stack_inv stacking st \<Longrightarrow> for_loop stacking unstacking st evs \<noteq> Inl e"
proof (induction evs arbitrary: st)
  case Nil
  then show ?case by simp
next
  case (Cons ev evs)
  show ?case
  proof (cases "loop_body stacking unstacking st ev")
    case (Inl e')
    with loop_body_no_error [OF Cons.prems assms] show ?thesis by blast
  next
    case (Inr out)
    show ?thesis
    proof (cases out)
      case (Return r)
      with Inr show ?thesis by simp
    next
      case (Continue st2)
      with Inr loop_body_inv [OF Cons.prems] have "stack_inv stacking st2" by blast
      from Cons.IH [OF this] Inr Continue show ?thesis by simp
    qed
  qed
qed

lemma loop_body_Match:
  assumes "st \<noteq> []" and "loop_body stacking unstacking st (paren, pos) = Inr (Return (Match p))"
  shows "p = pos \<and> paren \<in> set unstacking \<and> matchingBrackets (fst (last st)) = Some paren"
  using assms
  by (auto simp: loop_body_def end_of_body_Return split: if_splits option.splits)

lemma for_loop_Match:
  "stack_inv stacking st \<Longrightarrow> for_loop stacking unstacking st evs = Inr (Match p) \<Longrightarrow>
     \<exists>pre paren rest st'. evs = pre @ (paren, p) # rest \<and>
        run_prefix stacking unstacking st pre = Inr (Continue st') \<and> st' \<noteq> [] \<and>
        paren \<in> set unstacking \<and> matchingBrackets (fst (last st')) = Some paren"
proof (induction evs arbitrary: st)
  case Nil
  then show ?case by simp
next
  case (Cons ev evs)
  obtain paren pos where ev: "ev = (paren, pos)" by (cases ev)
  from Cons.prems(1) have ne: "st \<noteq> []" by (simp add: stack_inv_def)
  from Cons.prems(2) consider
    (ret) "loop_body stacking unstacking st ev = Inr (Return (Match p))"
    | (cont) st2 where "loop_body stacking unstacking st ev = Inr (Continue st2)"
               "for_loop stacking unstacking st2 evs = Inr (Match p)"
    by (auto split: sum.splits loop_outcome.splits)
  then show ?case
  proof cases
    case ret
    from loop_body_Match [OF ne ret [unfolded ev]] ev ne
    have "ev # evs = [] @ (paren, p) # evs \<and>
        run_prefix stacking unstacking st [] = Inr (Continue st) \<and> st \<noteq> [] \<and>
        paren \<in> set unstacking \<and> matchingBrackets (fst (last st)) = Some paren"
      by simp
    then show ?thesis by blast
  next
    case cont
    from loop_body_inv [OF Cons.prems(1) cont(1)] have "stack_inv stacking st2" .
    from Cons.IH [OF this cont(2)] obtain pre paren' rest st' where
      "evs = pre @ (paren', p) # rest"
      "run_prefix stacking unstacking st2 pre = Inr (Continue st')" "st' \<noteq> []"
      "paren' \<in> set unstacking" "matchingBrackets (fst (last st')) = Some paren'"
      by blast
    with cont(1) have "ev # evs = (ev # pre) @ (paren', p) # rest \<and>
        run_prefix stacking unstacking st (ev # pre) = Inr (Continue st') \<and> st' \<noteq> [] \<and>
        paren' \<in> set unstacking \<and> matchingBrackets (fst (last st')) = Some paren'"
      by simp
    then show ?thesis by blast
  qed
qed

lemma start_stack_inv:
  "select_direction char = Inr (d, stacking, unstacking) \<Longrightarrow> stack_inv stacking [(char, cursor)]"
  by (auto simp: stack_inv_def dest: select_direction_Inr)

lemma stacking_unstacking_disjoint:
  "select_direction char = Inr (d, stacking, unstacking) \<Longrightarrow> paren \<in> set unstacking \<Longrightarrow>
     paren \<notin> set stacking"
  by (auto simp: BRACKS_OPEN_def BRACKS_CLOSE_def dest!: select_direction_Inr)

text \<open>
  Claim C10. In every run of the loop of \<open>_findMatchingBracket\<close> (the start character is
  a bracket, so a direction is selected) the stack is not empty at the start of an
  iteration, whatever pairs came before; the loop raises no exception, so
  \<open>stacked_paren[-1]\<close> never reads an empty stack; and a result \<open>Match p\<close> is returned at
  a pair \<open>(paren, p)\<close> whose character is an unstacking one and the partner of the
  character on top of the stack at that moment.
\<close>

theorem C10_stack_never_empty:
  assumes "select_direction char = Inr (d, stacking, unstacking)"
  shows "(\<forall>pre st. run_prefix stacking unstacking [(char, cursor)] pre = Inr (Continue st) \<longrightarrow> st \<noteq> [])
    \<and> (\<forall>evs e. for_loop stacking unstacking [(char, cursor)] evs \<noteq> Inl e)
    \<and> (\<forall>evs p. for_loop stacking unstacking [(char, cursor)] evs = Inr (Match p) \<longrightarrow>
          (\<exists>pre paren rest st. evs = pre @ (paren, p) # rest \<and>
             run_prefix stacking unstacking [(char, cursor)] pre = Inr (Continue st) \<and> st \<noteq> [] \<and>
             paren \<in> set unstacking \<and> matchingBrackets (fst (last st)) = Some paren))"
proof (intro conjI allI impI)
  fix pre st
  assume "run_prefix stacking unstacking [(char, cursor)] pre = Inr (Continue st)"
  from run_prefix_inv [OF start_stack_inv [OF assms] this] show "st \<noteq> []"
    by (simp add: stack_inv_def)
next
  fix evs e
  from select_direction_Inr [OF assms] have "stacking = BRACKS_OPEN \<or> stacking = BRACKS_CLOSE"
    by blast
  from for_loop_no_error [OF this start_stack_inv [OF assms]]
  show "for_loop stacking unstacking [(char, cursor)] evs \<noteq> Inl e" .
next
  fix evs p
  assume "for_loop stacking unstacking [(char, cursor)] evs = Inr (Match p)"
  from for_loop_Match [OF start_stack_inv [OF assms] this]
  show "\<exists>pre paren rest st. evs = pre @ (paren, p) # rest \<and>
             run_prefix stacking unstacking [(char, cursor)] pre = Inr (Continue st) \<and> st \<noteq> [] \<and>
             paren \<in> set unstacking \<and> matchingBrackets (fst (last st)) = Some paren" .
qed

theorem C10_stack_never_empty_witness:
  "select_direction CHR ''('' = Inr (Forward, BRACKS_OPEN, BRACKS_CLOSE)
   \<and> run_prefix BRACKS_OPEN BRACKS_CLOSE [(CHR ''('', 1)] [(CHR ''['', 2), (CHR '']'', 3)]
       = Inr (Continue [(CHR ''('', 1)])
   \<and> [(CHR ''('', 1::int)] \<noteq> []
   \<and> for_loop BRACKS_OPEN BRACKS_CLOSE [(CHR ''('', 1)] [(CHR ''['', 2), (CHR '']'', 3), (CHR '')'', 4)]
       = Inr (Match 4)
   \<and> for_loop BRACKS_OPEN BRACKS_CLOSE [(CHR ''('', 1)] [(CHR ''['', 2), (CHR '']'', 3), (CHR '')'', 4)]
       \<noteq> Inl IndexError
   \<and> matchingBrackets (fst (last [(CHR ''('', 1::int)])) = Some CHR '')''"
proof -
  have h: "select_direction CHR ''('' = Inr (Forward, BRACKS_OPEN, BRACKS_CLOSE)"
    by code_simp
  have r: "run_prefix BRACKS_OPEN BRACKS_CLOSE [(CHR ''('', 1)] [(CHR ''['', 2), (CHR '']'', 3)]
       = Inr (Continue [(CHR ''('', 1)])"
    by code_simp
  have m: "for_loop BRACKS_OPEN BRACKS_CLOSE [(CHR ''('', 1)] [(CHR ''['', 2), (CHR '']'', 3), (CHR '')'', 4)]
       = Inr (Match 4)"
    by code_simp
  have p: "matchingBrackets (fst (last [(CHR ''('', 1::int)])) = Some CHR '')''"
    by code_simp
  from C10_stack_never_empty [OF h, of 1]
  have "for_loop BRACKS_OPEN BRACKS_CLOSE [(CHR ''('', 1)] [(CHR ''['', 2), (CHR '']'', 3), (CHR '')'', 4)]
       \<noteq> Inl IndexError"
    by blast
  with h r m p show ?thesis by simp
qed

text \<open>
  Claim C2. While the loop has not returned (the pairs \<open>pre\<close> leave it with the stack
  \<open>st\<close>), a pair whose character is in the unstacking set and is not the partner of the
  character on top of the stack makes the loop return \<open>MisMatch\<close> with the position of
  that pair as \<open>corresponding\<close> and the position on top of the stack as \<open>offending\<close>,
  whatever pairs \<open>rest\<close> the iterator would yield afterwards; and so does
  \<open>_findMatchingBracket\<close> over an iterator with these pairs.
\<close>

theorem C2_mismatch_returns_at_once:
  assumes "select_direction char = Inr (d, stacking, unstacking)"
    and "run_prefix stacking unstacking [(char, cursor)] pre = Inr (Continue st)"
    and "paren \<in> set unstacking"
    and "matchingBrackets (fst (last st)) \<noteq> Some paren"
  shows "for_loop stacking unstacking [(char, cursor)] (pre @ (paren, pos) # rest)
           = Inr (MisMatch pos (snd (last st)))
    \<and> (our_iterator ed cursor d = Inr (pre @ (paren, pos) # rest) \<longrightarrow>
         findMatchingBracket ed char cursor = Inr (MisMatch pos (snd (last st))))"
proof -
  from run_prefix_inv [OF start_stack_inv [OF assms(1)] assms(2)]
  have inv: "stack_inv stacking st" .
  then have ne: "st \<noteq> []"
    by (simp add: stack_inv_def)
  from inv select_direction_Inr [OF assms(1)]
  have "fst (last st) \<in> set BRACKS_OPEN \<or> fst (last st) \<in> set BRACKS_CLOSE"
    by (auto simp: stack_inv_def)
  from matchingBrackets_Some [OF this] obtain m where m: "matchingBrackets (fst (last st)) = Some m" ..
  with assms(4) have neq: "m \<noteq> paren"
    by simp
  from stacking_unstacking_disjoint [OF assms(1) assms(3)] have ns: "paren \<notin> set stacking" .
  from ns assms(3) ne m neq
  have body: "loop_body stacking unstacking st (paren, pos) = Inr (Return (MisMatch pos (snd (last st))))"
    by (simp add: loop_body_def)
  have loop: "for_loop stacking unstacking [(char, cursor)] (pre @ (paren, pos) # rest)
           = Inr (MisMatch pos (snd (last st)))"
    by (simp add: for_loop_append assms(2) body)
  then show ?thesis
    by (simp add: findMatchingBracket_def assms(1))
qed

theorem C2_mismatch_returns_at_once_witness:
  "select_direction CHR ''('' = Inr (Forward, BRACKS_OPEN, BRACKS_CLOSE)
   \<and> run_prefix BRACKS_OPEN BRACKS_CLOSE [(CHR ''('', 1)] [(CHR ''['', 2)]
       = Inr (Continue [(CHR ''('', 1), (CHR ''['', 2)])
   \<and> CHR ''}'' \<in> set BRACKS_CLOSE
   \<and> matchingBrackets (fst (last [(CHR ''('', 1::int), (CHR ''['', 2)])) \<noteq> Some CHR ''}''
   \<and> for_loop BRACKS_OPEN BRACKS_CLOSE [(CHR ''('', 1)]
        ([(CHR ''['', 2)] @ (CHR ''}'', 3) # [(CHR '']'', 4), (CHR '')'', 5)])
       = Inr (MisMatch 3 2)"
proof -
  have h: "select_direction CHR ''('' = Inr (Forward, BRACKS_OPEN, BRACKS_CLOSE)"
    by code_simp
  have r: "run_prefix BRACKS_OPEN BRACKS_CLOSE [(CHR ''('', 1)] [(CHR ''['', 2)]
       = Inr (Continue [(CHR ''('', 1), (CHR ''['', 2)])"
    by code_simp
  have u: "CHR ''}'' \<in> set BRACKS_CLOSE"
    by code_simp
  have n: "matchingBrackets (fst (last [(CHR ''('', 1::int), (CHR ''['', 2)])) \<noteq> Some CHR ''}''"
    by code_simp
  from C2_mismatch_returns_at_once [OF h r u n, of 3 "[(CHR '']'', 4), (CHR '')'', 5)]"]
  have "for_loop BRACKS_OPEN BRACKS_CLOSE [(CHR ''('', 1)]
        ([(CHR ''['', 2)] @ (CHR ''}'', 3) # [(CHR '']'', 4), (CHR '')'', 5)])
       = Inr (MisMatch 3 2)"
    by simp
  with h r u n show ?thesis by simp
qed

text \<open>
  Claim C9. A start character that is none of the six brackets makes
  \<open>_findMatchingBracket\<close> raise ValueError (no match result is returned). A closing
  bracket selects the backward direction, with the closing brackets stacking and the
  opening ones unstacking; an opening bracket selects the forward direction with the
  roles exchanged; and the query is the loop over the iterator of that direction.
\<close>

theorem C9_invalid_character_and_direction:
  "(char \<notin> set ''()[]{}'' \<longrightarrow> findMatchingBracket ed char cursor = Inl ValueError)
   \<and> (char \<in> set '')]}'' \<longrightarrow>
        select_direction char = Inr (Backward, '')]}'', ''([{'')
        \<and> findMatchingBracket ed char cursor =
            (case our_iterator ed cursor Backward of
               Inl e \<Rightarrow> Inl e
             | Inr evs \<Rightarrow> for_loop '')]}'' ''([{'' [(char, cursor)] evs))
   \<and> (char \<in> set ''([{'' \<longrightarrow>
        select_direction char = Inr (Forward, ''([{'', '')]}'')
        \<and> findMatchingBracket ed char cursor =
            (case our_iterator ed cursor Forward of
               Inl e \<Rightarrow> Inl e
             | Inr evs \<Rightarrow> for_loop ''([{'' '')]}'' [(char, cursor)] evs))"
proof (intro conjI impI)
  assume "char \<notin> set ''()[]{}''"
  then show "findMatchingBracket ed char cursor = Inl ValueError"
    by (simp add: findMatchingBracket_def select_direction_def BRACKS_OPEN_def BRACKS_CLOSE_def)
next
  assume c: "char \<in> set '')]}''"
  then show "select_direction char = Inr (Backward, '')]}'', ''([{'')"
    by (simp add: select_direction_def BRACKS_OPEN_def BRACKS_CLOSE_def)
  then show "findMatchingBracket ed char cursor =
            (case our_iterator ed cursor Backward of
               Inl e \<Rightarrow> Inl e
             | Inr evs \<Rightarrow> for_loop '')]}'' ''([{'' [(char, cursor)] evs)"
    by (simp add: findMatchingBracket_def)
next
  assume c: "char \<in> set ''([{''"
  then have "char \<notin> set '')]}''"
    by auto
  with c show "select_direction char = Inr (Forward, ''([{'', '')]}'')"
    by (simp add: select_direction_def BRACKS_OPEN_def BRACKS_CLOSE_def)
  then show "findMatchingBracket ed char cursor =
            (case our_iterator ed cursor Forward of
               Inl e \<Rightarrow> Inl e
             | Inr evs \<Rightarrow> for_loop ''([{'' '')]}'' [(char, cursor)] evs)"
    by (simp add: findMatchingBracket_def)
qed

theorem C9_invalid_character_and_direction_witness:
  "CHR ''x'' \<notin> set ''()[]{}''
   \<and> findMatchingBracket \<lparr>parser = None, document = [\<lparr>blk_text = ''x'', userData = None\<rparr>],
        highlightMisMatchingBracket = True\<rparr> CHR ''x'' 1 = Inl ValueError
   \<and> CHR '']'' \<in> set '')]}''
   \<and> select_direction CHR '']'' = Inr (Backward, '')]}'', ''([{'')
   \<and> CHR ''{'' \<in> set ''([{''
   \<and> select_direction CHR ''{'' = Inr (Forward, ''([{'', '')]}'')"
  using C9_invalid_character_and_direction
    [of "CHR ''x''" "\<lparr>parser = None, document = [\<lparr>blk_text = ''x'', userData = None\<rparr>],
        highlightMisMatchingBracket = True\<rparr>" 1]
    C9_invalid_character_and_direction [of "CHR '']''"]
    C9_invalid_character_and_direction [of "CHR ''{''"]
  by simp

section \<open>The plain-text iterator and balanced texts\<close>

lemma bracket_pairs_facts:
  assumes "(ob, cb) \<in> set bracket_pairs"
  shows "ob \<in> set BRACKS_OPEN" and "cb \<in> set BRACKS_CLOSE"
    and "ob \<notin> set BRACKS_CLOSE" and "cb \<notin> set BRACKS_OPEN"
    and "matchingBrackets ob = Some cb" and "matchingBrackets cb = Some ob"
    and "ob \<in> set ''([{)]}''" and "cb \<in> set ''([{)]}''"
  using assms
  by (auto simp: bracket_pairs_def BRACKS_OPEN_def BRACKS_CLOSE_def matchingBrackets_def)

lemma text_events_append:
  "text_events off (s @ t) = text_events off s @ text_events (off + int (length s)) t"
  by (induction s arbitrary: off) (simp_all add: add.assoc)

lemma loop_body_push:
  "paren \<in> set stacking \<Longrightarrow>
     loop_body stacking unstacking st (paren, pos) = Inr (Continue (st @ [(paren, pos)]))"
  by (simp add: loop_body_def end_of_body_def)

lemma loop_body_pop:
  "paren \<notin> set stacking \<Longrightarrow> paren \<in> set unstacking \<Longrightarrow>
   matchingBrackets tc = Some paren \<Longrightarrow>
     loop_body stacking unstacking (st @ [(tc, q)]) (paren, pos) = end_of_body st pos"
  by (simp add: loop_body_def)

lemma for_loop_balanced_forward:
  "balanced s \<Longrightarrow> st \<noteq> [] \<Longrightarrow>
     for_loop BRACKS_OPEN BRACKS_CLOSE st (text_events off s @ rest)
     = for_loop BRACKS_OPEN BRACKS_CLOSE st rest"
proof (induction s arbitrary: st off rest rule: balanced.induct)
  case empty
  show ?case by simp
next
  case (other c s)
  then show ?case by simp
next
  case (pair ob cb s t)
  note f = bracket_pairs_facts [OF pair.hyps(1)]
  let ?q = "off + 1 + int (length s) + 1"
  have "text_events off (ob # s @ cb # t) @ rest
      = (ob, off + 1) # text_events (off + 1) s @ (cb, ?q) # text_events ?q t @ rest"
    using f(7,8) by (simp add: text_events_append add.assoc)
  then have "for_loop BRACKS_OPEN BRACKS_CLOSE st (text_events off (ob # s @ cb # t) @ rest)
      = for_loop BRACKS_OPEN BRACKS_CLOSE (st @ [(ob, off + 1)])
          (text_events (off + 1) s @ (cb, ?q) # text_events ?q t @ rest)"
    by (simp add: loop_body_push [OF f(1)])
  also have "\<dots> = for_loop BRACKS_OPEN BRACKS_CLOSE (st @ [(ob, off + 1)])
          ((cb, ?q) # text_events ?q t @ rest)"
    by (rule pair.IH(1)) simp
  also have "\<dots> = for_loop BRACKS_OPEN BRACKS_CLOSE st (text_events ?q t @ rest)"
    using pair.prems by (simp add: loop_body_pop [OF f(4) f(2) f(5)] end_of_body_def)
  also have "\<dots> = for_loop BRACKS_OPEN BRACKS_CLOSE st rest"
    by (rule pair.IH(2)) (rule pair.prems)
  finally show ?case .
qed


lemma pt_while_None:
  "py_get t p = None \<Longrightarrow> pt_while t d p = None"
  by (subst pt_while.simps) simp

lemma pt_while_bracket:
  assumes "py_get t p = Some c" and "c \<in> set ''([{)]}''"
  shows "pt_while t d p = Some (c, p)"
proof -
  from assms(2) have "(c \<notin> set ''([{)]}'') = False"
    by blast
  then show ?thesis
    by (subst pt_while.simps) (simp only: assms(1) option.case if_False)
qed

lemma pt_while_other:
  assumes "py_get t p = Some c" and "c \<notin> set ''([{)]}''"
  shows "pt_while t d p = (if p + dir_int d < 0 then None else pt_while t d (p + dir_int d))"
proof -
  from assms(2) have "(c \<notin> set ''([{)]}'') = True"
    by blast
  then show ?thesis
    by (subst pt_while.simps) (simp only: assms(1) option.case if_True Let_def)
qed

lemma pt_events_unfold:
  "pt_events \<lparr>pt_fulltext = t, pt_position = p, pt_direction = d\<rparr> =
     (case pt_while t d (p + dir_int d) of
        None \<Rightarrow> []
      | Some (ch, q) \<Rightarrow> (ch, q + 1) # pt_events \<lparr>pt_fulltext = t, pt_position = q, pt_direction = d\<rparr>)"
  by (subst pt_events.simps) (simp add: PlainTextParenIterator_next_def split: option.splits)

lemma py_get_append_mid:
  "py_get (a @ c # b) (int (length a)) = Some c"
  by (simp add: py_get_def)

lemma py_get_at_length:
  "py_get a (int (length a)) = None"
  by (simp add: py_get_def)

lemma pt_events_forward:
  "pt_events \<lparr>pt_fulltext = a @ b, pt_position = int (length a) - 1, pt_direction = Forward\<rparr>
     = text_events (int (length a)) b"
proof (induction b arbitrary: a)
  case Nil
  show ?case
    by (subst pt_events_unfold) (simp add: pt_while_None py_get_at_length)
next
  case (Cons c b)
  have ih: "pt_events \<lparr>pt_fulltext = a @ c # b, pt_position = int (length a), pt_direction = Forward\<rparr>
     = text_events (int (length a) + 1) b"
    using Cons.IH [of "a @ [c]"] by (simp add: add.commute)
  show ?case
  proof (cases "c \<in> set ''([{)]}''")
    case True
    have "pt_while (a @ c # b) Forward (int (length a)) = Some (c, int (length a))"
      by (rule pt_while_bracket [OF py_get_append_mid True])
    then have "pt_events \<lparr>pt_fulltext = a @ c # b, pt_position = int (length a) - 1, pt_direction = Forward\<rparr>
        = (c, int (length a) + 1)
          # pt_events \<lparr>pt_fulltext = a @ c # b, pt_position = int (length a), pt_direction = Forward\<rparr>"
      by (subst pt_events_unfold) simp
    with ih True show ?thesis
      by (simp only: text_events.simps if_True append_Cons append_Nil)
  next
    case False
    have "pt_while (a @ c # b) Forward (int (length a))
        = pt_while (a @ c # b) Forward (int (length a) + 1)"
      by (subst pt_while_other [OF py_get_append_mid False]) simp
    then have "pt_events \<lparr>pt_fulltext = a @ c # b, pt_position = int (length a) - 1, pt_direction = Forward\<rparr>
        = pt_events \<lparr>pt_fulltext = a @ c # b, pt_position = int (length a), pt_direction = Forward\<rparr>"
      by (subst pt_events_unfold, subst (2) pt_events_unfold) simp
    with ih False show ?thesis
      by (simp only: text_events.simps if_False append_Nil)
  qed
qed


lemma our_iterator_plain:
  "\<not> has_parser ed \<Longrightarrow>
     our_iterator ed cursor d =
       Inr (pt_events \<lparr>pt_fulltext = toPlainText (document ed), pt_position = cursor - 1, pt_direction = d\<rparr>)"
  by (simp add: our_iterator_def PlainTextParenIterator_init_def)

lemma opening_query_events:
  assumes "balanced body"
    and "our_iterator ed 1 Forward = Inr (text_events 1 (body @ '')''))"
  shows "findMatchingBracket ed CHR ''('' 1 = Inr (Match (int (length body) + 2))"
proof -
  have sel: "select_direction CHR ''('' = Inr (Forward, BRACKS_OPEN, BRACKS_CLOSE)"
    by (simp add: select_direction_def BRACKS_OPEN_def BRACKS_CLOSE_def)
  from assms(2) have evs: "our_iterator ed 1 Forward
      = Inr (text_events 1 body @ [(CHR '')'', int (length body) + 2)])"
    by (simp add: text_events_append)
  have "for_loop BRACKS_OPEN BRACKS_CLOSE [(CHR ''('', 1)]
          (text_events 1 body @ [(CHR '')'', int (length body) + 2)])
      = for_loop BRACKS_OPEN BRACKS_CLOSE [(CHR ''('', 1)] [(CHR '')'', int (length body) + 2)]"
    by (rule for_loop_balanced_forward [OF assms(1)]) simp
  also have "\<dots> = Inr (Match (int (length body) + 2))"
    by (simp add: loop_body_def end_of_body_def BRACKS_OPEN_def BRACKS_CLOSE_def matchingBrackets_def)
  finally show ?thesis
    by (simp add: findMatchingBracket_def sel evs)
qed


lemma plain_query_opening:
  assumes "balanced body" and "toPlainText (document ed) = CHR ''('' # body @ '')''"
    and "\<not> has_parser ed"
  shows "findMatchingBracket ed CHR ''('' 1 = Inr (Match (int (length body) + 2))"
proof -
  have "pt_events \<lparr>pt_fulltext = ''('' @ (body @ '')''), pt_position = int (length ''('') - 1,
            pt_direction = Forward\<rparr>
      = text_events (int (length ''('')) (body @ '')'')"
    by (rule pt_events_forward)
  then have "our_iterator ed 1 Forward = Inr (text_events 1 (body @ '')''))"
    by (simp add: our_iterator_plain [OF assms(3)] assms(2))
  from opening_query_events [OF assms(1) this] show ?thesis .
qed


section \<open>The token iterator\<close>

lemma init_while_None:
  "0 \<le> k \<Longrightarrow> \<forall>t \<in> set (drop (nat k) cur_tokens). tok_end t \<noteq> pib \<Longrightarrow>
     init_while cur_tokens pib k = None"
proof (induction cur_tokens pib k rule: init_while.induct)
  case (1 cur_tokens pib k)
  show ?case
  proof (cases "k < int (length cur_tokens)")
    case False
    with "1.prems"(1) have "py_get cur_tokens k = None"
      by (simp add: py_get_def)
    then show ?thesis
      by (subst init_while.simps) simp
  next
    case True
    with "1.prems"(1) have g: "py_get cur_tokens k = Some (cur_tokens ! nat k)"
      by (simp add: py_get_def)
    from True "1.prems"(1) have d: "drop (nat k) cur_tokens = cur_tokens ! nat k # drop (nat (k + 1)) cur_tokens"
      by (simp add: Cons_nth_drop_Suc nat_add_distrib)
    with "1.prems"(2) have ne: "tok_end (cur_tokens ! nat k) \<noteq> pib"
      and rest: "\<forall>t \<in> set (drop (nat (k + 1)) cur_tokens). tok_end t \<noteq> pib"
      by simp_all
    from "1.prems"(1) have "0 \<le> k + 1"
      by simp
    from "1.IH" [OF g ne this rest] g ne show ?thesis
      by (subst init_while.simps) simp
  qed
qed




















lemma block_position_0 [simp]:
  "block_position doc 0 = 0"
  by (simp add: block_position_def)
















text \<open>
  Claim C8. With a parser (the token iterator is chosen), a start block that has user
  data, and no parenthesis token of that block ending at the cursor's position in the
  block, the construction of the iterator raises \<open>_ParenNotFound\<close>; the exception
  leaves \<open>_findMatchingBracket\<close> and is caught in \<open>paintEvent\<close>, which paints nothing
  and raises nothing.
\<close>

theorem C8_paren_not_found_suppresses:
  assumes "has_parser ed"
    and "isValid (document ed) (cursor_block (document ed) cursor)"
    and "userData (document ed ! nat (cursor_block (document ed) cursor)) = Some tokens"
    and "\<forall>t \<in> set tokens. isParenthesisToken t \<longrightarrow> tok_end t \<noteq> positionInBlock (document ed) cursor"
    and "char \<in> set BRACKS"
  shows "ParenIterator_init (document ed) cursor d = Inl ParenNotFound
    \<and> findMatchingBracket ed char cursor = Inl ParenNotFound
    \<and> paint_bracket ed char cursor = Inr []"
proof -
  from assms(2,3)
  have toks: "getParenTokens (document ed) (cursor_block (document ed) cursor)
      = filter isParenthesisToken tokens"
    by (simp add: getParenTokens_def)
  from assms(4) have "\<forall>t \<in> set (drop (nat 0) (filter isParenthesisToken tokens)).
      tok_end t \<noteq> positionInBlock (document ed) cursor"
    by simp
  from init_while_None [OF _ this]
  have "init_while (filter isParenthesisToken tokens) (positionInBlock (document ed) cursor) 0 = None"
    by simp
  with toks have init: "\<And>d. ParenIterator_init (document ed) cursor d = Inl ParenNotFound"
    by (simp add: ParenIterator_init_def)
  then have it: "\<And>d. our_iterator ed cursor d = Inl ParenNotFound"
    by (simp add: our_iterator_def assms(1))
  from assms(5) have "\<exists>d s u. select_direction char = Inr (d, s, u)"
    by (auto simp: select_direction_def BRACKS_def)
  with it have f: "findMatchingBracket ed char cursor = Inl ParenNotFound"
    by (auto simp: findMatchingBracket_def)
  with init show ?thesis
    by (simp add: paint_bracket_def)
qed

theorem C8_paren_not_found_suppresses_witness:
  "paint_bracket
     \<lparr>parser = Some ''python'',
      document = [\<lparr>blk_text = ''s = \"(\"'',
              userData = Some [\<lparr>isParenthesisToken = False, style = CHR ''s'', tok_end = 1\<rparr>,
                               \<lparr>isParenthesisToken = False, style = CHR ''\"'', tok_end = 7\<rparr>]\<rparr>],
      highlightMisMatchingBracket = True\<rparr> CHR ''('' 6 = Inr []"
proof -
  let ?toks = "[\<lparr>isParenthesisToken = False, style = CHR ''s'', tok_end = 1\<rparr>,
                               \<lparr>isParenthesisToken = False, style = CHR ''\"'', tok_end = 7\<rparr>]"
  let ?doc = "[\<lparr>blk_text = ''s = \"(\"'', userData = Some ?toks\<rparr>]"
  let ?ed = "\<lparr>parser = Some ''python'', document = ?doc, highlightMisMatchingBracket = True\<rparr>"
  have b: "cursor_block ?doc 6 = 0"
    by code_simp
  have 1: "has_parser ?ed"
    by (simp add: has_parser_def)
  have 2: "isValid (document ?ed) (cursor_block (document ?ed) 6)"
    by (simp add: b isValid_def)
  have 3: "userData (document ?ed ! nat (cursor_block (document ?ed) 6)) = Some ?toks"
    by (simp add: b)
  have 4: "\<forall>t \<in> set ?toks. isParenthesisToken t \<longrightarrow> tok_end t \<noteq> positionInBlock (document ?ed) 6"
    by simp
  have 5: "CHR ''('' \<in> set BRACKS"
    by code_simp
  from C8_paren_not_found_suppresses [OF 1 2 3 4 5] show ?thesis
    by simp
qed

section \<open>Results of queries\<close>

lemma balanced_nest:
  "balanced (replicate n CHR ''('' @ replicate n CHR '')'')"
proof (induction n)
  case 0
  show ?case by (simp add: balanced.empty)
next
  case (Suc n)
  have "(CHR ''('', CHR '')'') \<in> set bracket_pairs"
    by (simp add: bracket_pairs_def)
  from balanced.pair [OF this Suc balanced.empty]
  have "balanced (CHR ''('' # (replicate n CHR ''('' @ replicate n CHR '')'') @ [CHR '')''])" .
  then show ?case
    by (simp add: replicate_append_same)
qed

lemma length_text_events:
  "length (text_events off s) = length (filter (\<lambda>c. c \<in> set ''([{)]}'') s)"
  by (induction s arbitrary: off) simp_all

lemma loop_body_not_NoMatch:
  "loop_body stacking unstacking st ev \<noteq> Inr (Return NoMatch)"
  by (cases ev) (simp add: loop_body_def end_of_body_def split: option.splits)

lemma for_loop_NoMatch_iff:
  "for_loop stacking unstacking st evs = Inr NoMatch
     \<longleftrightarrow> (\<exists>st'. run_prefix stacking unstacking st evs = Inr (Continue st'))"
proof (induction evs arbitrary: st)
  case Nil
  show ?case by simp
next
  case (Cons ev evs)
  show ?case
  proof (cases "loop_body stacking unstacking st ev")
    case (Inl e)
    then show ?thesis by simp
  next
    case (Inr out)
    show ?thesis
    proof (cases out)
      case (Return r)
      with Inr loop_body_not_NoMatch [of stacking unstacking st ev] show ?thesis
        by auto
    next
      case (Continue st2)
      with Inr Cons.IH [of st2] show ?thesis by simp
    qed
  qed
qed




text \<open>
  Claim C3, as the code has it. In the document \<open>(]\<close> the query on the opening bracket
  returns \<open>MisMatch\<close> whose \<open>corresponding\<close> is the position of the closing square
  bracket that the scan met (2) and whose \<open>offending\<close> is the position of the opening
  bracket on top of the stack (1), with the plain-text iterator and with the token
  iterator.
\<close>

theorem C3_mismatch_positions:
  "findMatchingBracket
     \<lparr>parser = None, document = [\<lparr>blk_text = ''(]'', userData = None\<rparr>],
      highlightMisMatchingBracket = True\<rparr> CHR ''('' 1 = Inr (MisMatch 2 1)
   \<and> findMatchingBracket
     \<lparr>parser = Some ''python'',
      document = [\<lparr>blk_text = ''(]'',
              userData = Some [\<lparr>isParenthesisToken = True, style = CHR ''('', tok_end = 1\<rparr>,
                               \<lparr>isParenthesisToken = True, style = CHR '']'', tok_end = 2\<rparr>]\<rparr>],
      highlightMisMatchingBracket = True\<rparr> CHR ''('' 1 = Inr (MisMatch 2 1)"
  by code_simp

text \<open>
  The claim C3 as it is stated fails: the \<open>offending\<close> position of that result is not 2,
  the position of the closing square bracket, and its \<open>corresponding\<close> position is not
  1, the position of the bracket on top of the stack.
\<close>

theorem C3_counterexample:
  "(case findMatchingBracket
           \<lparr>parser = None, document = [\<lparr>blk_text = ''(]'', userData = None\<rparr>],
            highlightMisMatchingBracket = True\<rparr> CHR ''('' 1 of
      Inr (MisMatch corresponding offending) \<Rightarrow> offending \<noteq> 2 \<and> corresponding \<noteq> 1
    | _ \<Rightarrow> False)"
  by code_simp

text \<open>
  Claim C4, as the code has it. The loop of \<open>_findMatchingBracket\<close> has no bound on its
  iterations. A query on a bracket whose iterator is constructed returns a match
  result, and the result is \<open>NoMatch\<close> exactly when the loop has gone through all pairs
  of the iterator without returning, however many pairs there are.
\<close>

theorem C4_no_iteration_cap:
  assumes "select_direction char = Inr (d, stacking, unstacking)"
    and "our_iterator ed cursor d = Inr evs"
  shows "(\<exists>r. findMatchingBracket ed char cursor = Inr r)
    \<and> (findMatchingBracket ed char cursor = Inr NoMatch
         \<longleftrightarrow> (\<exists>st. run_prefix stacking unstacking [(char, cursor)] evs = Inr (Continue st)))"
proof -
  have f: "findMatchingBracket ed char cursor = for_loop stacking unstacking [(char, cursor)] evs"
    by (simp add: findMatchingBracket_def assms)
  from select_direction_Inr [OF assms(1)] have "stacking = BRACKS_OPEN \<or> stacking = BRACKS_CLOSE"
    by blast
  from for_loop_no_error [OF this start_stack_inv [OF assms(1)]]
  have "\<And>e. for_loop stacking unstacking [(char, cursor)] evs \<noteq> Inl e" .
  then have "\<exists>r. for_loop stacking unstacking [(char, cursor)] evs = Inr r"
    by (cases "for_loop stacking unstacking [(char, cursor)] evs") auto
  with f for_loop_NoMatch_iff [of stacking unstacking "[(char, cursor)]" evs] show ?thesis
    by simp
qed

theorem C4_no_iteration_cap_witness:
  "findMatchingBracket
     \<lparr>parser = None, document = [\<lparr>blk_text = ''(['', userData = None\<rparr>],
      highlightMisMatchingBracket = True\<rparr> CHR ''('' 1 = Inr NoMatch
   \<and> run_prefix BRACKS_OPEN BRACKS_CLOSE [(CHR ''('', 1)] [(CHR ''['', 2)]
       = Inr (Continue [(CHR ''('', 1), (CHR ''['', 2)])"
proof -
  let ?ed = "\<lparr>parser = None, document = [\<lparr>blk_text = ''(['', userData = None\<rparr>],
      highlightMisMatchingBracket = True\<rparr>"
  have h: "select_direction CHR ''('' = Inr (Forward, BRACKS_OPEN, BRACKS_CLOSE)"
    by code_simp
  have i: "our_iterator ?ed 1 Forward = Inr [(CHR ''['', 2)]"
    by code_simp
  have r: "run_prefix BRACKS_OPEN BRACKS_CLOSE [(CHR ''('', 1)] [(CHR ''['', 2)]
       = Inr (Continue [(CHR ''('', 1), (CHR ''['', 2)])"
    by code_simp
  from C4_no_iteration_cap [OF h i] r show ?thesis
    by simp
qed

text \<open>
  The claim C4 as it is stated fails on 300 opening brackets followed by 300 closing
  ones: the iterator of the query on the first bracket yields 599 pairs, more than 500,
  and the result is the match at the last one, not \<open>NoMatch\<close>.
\<close>

theorem C4_counterexample:
  "map_sum id length
     (our_iterator
        \<lparr>parser = None,
         document = [\<lparr>blk_text = CHR ''('' # (replicate 299 CHR ''('' @ replicate 299 CHR '')'') @ '')'',
                 userData = None\<rparr>],
         highlightMisMatchingBracket = True\<rparr> 1 Forward) = Inr 599
   \<and> findMatchingBracket
        \<lparr>parser = None,
         document = [\<lparr>blk_text = CHR ''('' # (replicate 299 CHR ''('' @ replicate 299 CHR '')'') @ '')'',
                 userData = None\<rparr>],
         highlightMisMatchingBracket = True\<rparr> CHR ''('' 1 = Inr (Match 600)"
proof
  let ?body = "replicate 299 CHR ''('' @ replicate 299 CHR '')''"
  let ?ed = "\<lparr>parser = None, document = [\<lparr>blk_text = CHR ''('' # ?body @ '')'', userData = None\<rparr>],
         highlightMisMatchingBracket = True\<rparr>"
  have "pt_events \<lparr>pt_fulltext = ''('' @ (?body @ '')''), pt_position = int (length ''('') - 1,
            pt_direction = Forward\<rparr>
      = text_events (int (length ''('')) (?body @ '')'')"
    by (rule pt_events_forward)
  then have "our_iterator ?ed 1 Forward = Inr (text_events 1 (?body @ '')''))"
    by (simp add: our_iterator_def PlainTextParenIterator_init_def has_parser_def)
  then show "map_sum id length (our_iterator ?ed 1 Forward) = Inr 599"
    by (simp add: length_text_events)
  have "findMatchingBracket ?ed CHR ''('' 1 = Inr (Match (int (length ?body) + 2))"
    by (rule plain_query_opening [OF balanced_nest]) (simp_all add: has_parser_def)
  then show "findMatchingBracket ?ed CHR ''('' 1 = Inr (Match 600)"
    by simp
qed

text \<open>
  Claim C5. The set of the pairs of position and style that are painted for a match
  result is the row of the table: the start as unmatched for \<open>NoMatch\<close>; the start and
  the corresponding position as matched for \<open>Match\<close>; for \<open>MisMatch\<close> the start as
  unmatched when mismatches are not highlighted, the corresponding and the offending
  positions as mismatched when they are and the start is the offending position, and all
  three otherwise. These are the pairs that \<open>paintEvent\<close> paints after a query with
  that result.
\<close>

theorem C5_highlight_table:
  "set (highlight_calls ed start match_res) =
     (case match_res of
        NoMatch \<Rightarrow> {(start, Unmatched)}
      | Match p \<Rightarrow> {(start, MatchedPair), (p, MatchedPair)}
      | MisMatch corr off \<Rightarrow>
          if \<not> highlightMisMatchingBracket ed then {(start, Unmatched)}
          else if start = off then {(corr, MismatchedPair), (off, MismatchedPair)}
          else {(start, Unmatched), (corr, MismatchedPair), (off, MismatchedPair)})
   \<and> (findMatchingBracket ed char start = Inr match_res \<longrightarrow>
        paint_bracket ed char start = Inr (highlight_calls ed start match_res))"
proof
  show "set (highlight_calls ed start match_res) =
     (case match_res of
        NoMatch \<Rightarrow> {(start, Unmatched)}
      | Match p \<Rightarrow> {(start, MatchedPair), (p, MatchedPair)}
      | MisMatch corr off \<Rightarrow>
          if \<not> highlightMisMatchingBracket ed then {(start, Unmatched)}
          else if start = off then {(corr, MismatchedPair), (off, MismatchedPair)}
          else {(start, Unmatched), (corr, MismatchedPair), (off, MismatchedPair)})"
  proof (cases match_res)
    case NoMatch
    then show ?thesis by (simp add: highlight_calls_def)
  next
    case (Match p)
    then show ?thesis by (simp add: highlight_calls_def)
  next
    case (MisMatch corr off)
    then show ?thesis by (auto simp: highlight_calls_def)
  qed
next
  show "findMatchingBracket ed char start = Inr match_res \<longrightarrow>
        paint_bracket ed char start = Inr (highlight_calls ed start match_res)"
    by (simp add: paint_bracket_def)
qed

theorem C5_highlight_table_witness:
  "set (highlight_calls \<lparr>parser = None, document = [], highlightMisMatchingBracket = True\<rparr> 1 (MisMatch 2 1))
     = {(2, MismatchedPair), (1, MismatchedPair)}
   \<and> set (highlight_calls \<lparr>parser = None, document = [], highlightMisMatchingBracket = True\<rparr> 3 (MisMatch 2 1))
     = {(3, Unmatched), (2, MismatchedPair), (1, MismatchedPair)}
   \<and> set (highlight_calls \<lparr>parser = None, document = [], highlightMisMatchingBracket = False\<rparr> 1 (MisMatch 2 1))
     = {(1, Unmatched)}
   \<and> set (highlight_calls \<lparr>parser = None, document = [], highlightMisMatchingBracket = True\<rparr> 1 (Match 2))
     = {(1, MatchedPair), (2, MatchedPair)}
   \<and> set (highlight_calls \<lparr>parser = None, document = [], highlightMisMatchingBracket = True\<rparr> 1 NoMatch)
     = {(1, Unmatched)}"
  using
    C5_highlight_table [of "\<lparr>parser = None, document = [], highlightMisMatchingBracket = True\<rparr>" 1 "MisMatch 2 1"]
    C5_highlight_table [of "\<lparr>parser = None, document = [], highlightMisMatchingBracket = True\<rparr>" 3 "MisMatch 2 1"]
    C5_highlight_table [of "\<lparr>parser = None, document = [], highlightMisMatchingBracket = False\<rparr>" 1 "MisMatch 2 1"]
    C5_highlight_table [of "\<lparr>parser = None, document = [], highlightMisMatchingBracket = True\<rparr>" 1 "Match 2"]
    C5_highlight_table [of "\<lparr>parser = None, document = [], highlightMisMatchingBracket = True\<rparr>" 1 "NoMatch"]
  by simp

text \<open>
  Claim C6 fails on the code. In the plain-text document \<open>)(\<close> the backward iterator
  from the closing bracket (cursor position 1) is at the start of the document at once,
  and yet it yields two pairs: the subscription \<open>self.fulltext[self.position]\<close> with
  the position \<open>-1\<close> reads the last character of the text, and with \<open>-2\<close> the start
  bracket itself.
\<close>

theorem C6_plain_backward_wraps_around:
  "pt_events (PlainTextParenIterator_init [\<lparr>blk_text = '')('', userData = None\<rparr>] 1 Backward)
     = [(CHR ''('', 0), (CHR '')'', - 1)]"
  by code_simp

text \<open>
  Claim C7 fails on the code. The line \<open>)(\<close> has no string and no comment; the query on
  its closing bracket returns \<open>Match\<close> at position 0 with the plain-text iterator and
  \<open>NoMatch\<close> with the token iterator.
\<close>

theorem C7_strategies_differ:
  "findMatchingBracket
     \<lparr>parser = None, document = [\<lparr>blk_text = '')('', userData = None\<rparr>],
      highlightMisMatchingBracket = True\<rparr> CHR '')'' 1 = Inr (Match 0)
   \<and> findMatchingBracket
     \<lparr>parser = Some ''python'',
      document = [\<lparr>blk_text = '')('',
              userData = Some [\<lparr>isParenthesisToken = True, style = CHR '')'', tok_end = 1\<rparr>,
                               \<lparr>isParenthesisToken = True, style = CHR ''('', tok_end = 2\<rparr>]\<rparr>],
      highlightMisMatchingBracket = True\<rparr> CHR '')'' 1 = Inr NoMatch"
  by code_simp

end
